theory Spec2Isabelle
  imports Main
begin

section \<open>The service manager of src/services.ts\<close>

text \<open>
  \<^verbatim>\<open>ServiceStat\<close> is imported from \<^verbatim>\<open>./types\<close>; the members are the five that
  \<^verbatim>\<open>getStateName\<close> names.
\<close>

datatype ServiceStat = Init | Starting | Running | Restarting | Stopped

text \<open>
  The fields of \<^verbatim>\<open>IServiceProvider\<close> that the manager reads. A service is a
  JavaScript object: the manager holds references to it, and \<^verbatim>\<open>service.init()\<close>
  changes the object, not a copy. So the objects live in a store, addressed by
  a reference.
\<close>

record IServiceProvider =
  name :: string
  languageIds :: "string list"
  state :: ServiceStat

type_synonym ref = nat

text \<open>What \<^verbatim>\<open>echoErr\<close>, \<^verbatim>\<open>echoWarning\<close> and \<^verbatim>\<open>echoMessage\<close> send to the editor.\<close>

datatype echo = EchoErr string | EchoWarning string | EchoMessage string

text \<open>
  The state that the methods of \<^verbatim>\<open>ServiceManager\<close> read and write:
  \<^item> \<open>objects\<close>: the store of service objects;
  \<^item> \<open>languageIds\<close>: the private \<^verbatim>\<open>Set<string>\<close>;
  \<^item> \<open>registed\<close>: the private \<^verbatim>\<open>Map<string, IServiceProvider>\<close>, in insertion
    order (the order in which \<^verbatim>\<open>values()\<close> iterates);
  \<^item> \<open>echoed\<close>: the messages sent through \<^verbatim>\<open>nvim\<close>, oldest first;
  \<^item> \<open>readyListeners\<close>: the services whose \<^verbatim>\<open>onServiceReady\<close> got a callback;
  \<^item> \<open>initCalls\<close>: the services whose \<^verbatim>\<open>init()\<close> was invoked, oldest first.
\<close>

record ServiceManager =
  objects :: "ref \<Rightarrow> IServiceProvider"
  languageIds :: "string set"
  registed :: "(string \<times> ref) list"
  echoed :: "echo list"
  readyListeners :: "ref list"
  initCalls :: "ref list"

text \<open>
  \<^verbatim>\<open>regist(service)\<close>. \<^verbatim>\<open>this.registed.get(name)\<close> is truthy exactly when the key
  is present, since every value is an object. The error is echoed and the
  method returns; nothing is thrown.
\<close>

definition regist :: "ref \<Rightarrow> ServiceManager \<Rightarrow> ServiceManager" where
  "regist service m =
     (let nm = name (objects m service);
          langs = IServiceProvider.languageIds (objects m service)
      in case map_of (registed m) nm of
           Some _ \<Rightarrow>
             m\<lparr>echoed := echoed m @ [EchoErr (''Service '' @ nm @ '' already exists'')]\<rparr>
         | None \<Rightarrow>
             m\<lparr>registed := registed m @ [(nm, service)],
               languageIds := languageIds m \<union> set langs,
               readyListeners := readyListeners m @ [service]\<rparr>)"

text \<open>
  \<^verbatim>\<open>checkProvider(languageId, warning = false)\<close>: the result, and the manager
  with the warning echoed when one is asked for. \<^verbatim>\<open>!languageId\<close> holds of the
  empty string.
\<close>

definition checkProvider :: "string \<Rightarrow> bool \<Rightarrow> ServiceManager \<Rightarrow> bool \<times> ServiceManager" where
  "checkProvider languageId warning m =
     (if languageId = [] then (False, m)
      else if languageId \<notin> languageIds m then
        (False,
         if warning
         then m\<lparr>echoed := echoed m @ [EchoWarning (''service not found for '' @ languageId)]\<rparr>
         else m)
      else (True, m))"

text \<open>
  \<^verbatim>\<open>getServices(languageId)\<close>: \<open>None\<close> is the \<^verbatim>\<open>undefined\<close> of the bare
  \<^verbatim>\<open>return\<close>. The loop pushes, in the order of \<^verbatim>\<open>registed.values()\<close>, every
  service with \<^verbatim>\<open>service.languageIds.indexOf(languageId) !== -1\<close>.
\<close>

definition getServices :: "string \<Rightarrow> ServiceManager \<Rightarrow> ref list option" where
  "getServices languageId m =
     (if \<not> fst (checkProvider languageId False m) then None
      else Some (filter
        (\<lambda>service. languageId \<in> set (IServiceProvider.languageIds (objects m service)))
        (map snd (registed m))))"

text \<open>
  Modelled from the spec: the \<^verbatim>\<open>init()\<close> method of a service, whose
  implementations are not in the sources. The spec's words: a service that is
  \<open>Init\<close> or \<open>Stopped\<close> is moved to \<open>Starting\<close> by invoking its own \<^verbatim>\<open>init\<close>.
\<close>

definition service_init :: "IServiceProvider \<Rightarrow> IServiceProvider" where
  "service_init s = s\<lparr>state := Starting\<rparr>"

text \<open>One round of the loop of \<^verbatim>\<open>start\<close>: the state is read from the object as
  it is now.\<close>

definition start_step :: "ref \<Rightarrow> ServiceManager \<Rightarrow> ServiceManager" where
  "start_step service m =
     (if state (objects m service) = Init \<or> state (objects m service) = Stopped
      then m\<lparr>objects := (objects m)(service := service_init (objects m service)),
             initCalls := initCalls m @ [service]\<rparr>
      else m)"

fun start_loop :: "ref list \<Rightarrow> ServiceManager \<Rightarrow> ServiceManager" where
  "start_loop [] m = m"
| "start_loop (service # services) m = start_loop services (start_step service m)"

text \<open>
  \<^verbatim>\<open>start(languageId)\<close>. After \<^verbatim>\<open>checkProvider\<close> has passed, \<^verbatim>\<open>getServices\<close>
  returns a list; the \<open>None\<close> branch stands for the \<^verbatim>\<open>for ... of\<close> over
  \<^verbatim>\<open>undefined\<close>, which the guard above it excludes.
\<close>

definition start :: "string \<Rightarrow> ServiceManager \<Rightarrow> ServiceManager" where
  "start languageId m =
     (if \<not> fst (checkProvider languageId False m) then m
      else case getServices languageId m of
             None \<Rightarrow> m
           | Some services \<Rightarrow> start_loop services m)"

text \<open>The manager as constructed: an empty set and an empty map.\<close>

definition new_manager :: "(ref \<Rightarrow> IServiceProvider) \<Rightarrow> ServiceManager" where
  "new_manager objs =
     \<lparr>objects = objs, languageIds = {}, registed = [], echoed = [],
      readyListeners = [], initCalls = []\<rparr>"

text \<open>
  The set \<open>languageIds\<close> is written only by \<^verbatim>\<open>regist\<close>, which adds the ids of
  the service it stores: it holds the ids of the registered services.
\<close>

definition languageIds_synced :: "ServiceManager \<Rightarrow> bool" where
  "languageIds_synced m =
     (languageIds m =
        (\<Union>service \<in> snd ` set (registed m).
           set (IServiceProvider.languageIds (objects m service))))"

text \<open>
  The map \<open>registed\<close> is keyed by the names of the services it holds, and no
  key occurs twice.
\<close>

definition registed_wf :: "ServiceManager \<Rightarrow> bool" where
  "registed_wf m =
     (list_all (\<lambda>(nm, service). nm = name (objects m service)) (registed m) \<and>
      distinct (map fst (registed m)))"

section \<open>The workspace edit applier\<close>

text \<open>
  The applier (\<^verbatim>\<open>workspace.applyEdit\<close>) is called by the tests in
  workspace.test.ts; its own file is not among the
  sources. Its data and its validation phase are modelled from the spec,
  sections 3 and 4.3.
\<close>

type_synonym uri = string

record Position =
  line :: nat
  character :: nat

text \<open>Modelled from the spec: a \<^verbatim>\<open>TextEdit\<close> is a range (start, end) in
  line/character coordinates and the new text. The applier is not in the sources.\<close>

record TextEdit =
  range' :: "Position \<times> Position"
  newText :: string

text \<open>Modelled from the spec: a \<^verbatim>\<open>TextModel\<close> is an ordered sequence of lines
  and a version. The document model is not in the sources.\<close>

record TextModel =
  lines :: "string list"
  version :: int

text \<open>Modelled from the spec: a \<^verbatim>\<open>Document\<close> has the identity (bufferId, uri),
  owns one current text model, and has a language id and two flags. The
  document class is not in the sources.\<close>

record Document =
  bufferId :: nat
  uri :: uri
  textModel :: TextModel
  languageId :: string
  isAttached :: bool
  isDirty :: bool

text \<open>Modelled from the spec: the options of \<^verbatim>\<open>CreateFile\<close> and \<^verbatim>\<open>RenameFile\<close>
  (\<^verbatim>\<open>overwrite?\<close>, \<^verbatim>\<open>ignoreIfExists?\<close>) and of \<^verbatim>\<open>DeleteFile\<close>
  (\<^verbatim>\<open>ignoreIfNotExists?\<close>, \<^verbatim>\<open>recursive?\<close>); an option left out is \<open>None\<close>.\<close>

record FileOptions =
  overwrite :: "bool option"
  ignoreIfExists :: "bool option"

record DeleteFileOptions =
  ignoreIfNotExists :: "bool option"
  recursive :: "bool option"

text \<open>Modelled from the spec: the four kinds of operation of \<^verbatim>\<open>documentChanges\<close>.
  The version of a \<^verbatim>\<open>TextDocumentEdit\<close> is an integer or null (\<open>None\<close>).\<close>

datatype Operation =
    TextDocumentEdit uri "int option" "TextEdit list"
  | CreateFile uri FileOptions
  | DeleteFile uri DeleteFileOptions
  | RenameFile uri uri FileOptions

text \<open>Modelled from the spec: a \<^verbatim>\<open>WorkspaceEdit\<close> has the shape \<^verbatim>\<open>changes\<close> (a
  mapping from URI to an ordered sequence of edits) or the shape
  \<^verbatim>\<open>documentChanges\<close> (an ordered sequence of operations); a shape that is
  absent is \<open>None\<close>.\<close>

record WorkspaceEdit =
  changes :: "(uri \<times> TextEdit list) list option"
  documentChanges :: "Operation list option"

text \<open>Modelled from the spec: the document registry maps a buffer id to its
  Document, in the order of attachment (oldest first); \<open>files\<close> is the backing
  filesystem, a file's URI mapped to its content.\<close>

record Workspace =
  documents :: "(nat \<times> Document) list"
  files :: "uri \<rightharpoonup> string"

text \<open>Modelled from the spec: \<^verbatim>\<open>getDocument(uri)\<close> is the Document of the URI or
  absent; of two buffers with one URI the most recently attached wins.\<close>

definition getDocument :: "Workspace \<Rightarrow> uri \<Rightarrow> Document option" where
  "getDocument ws u = find (\<lambda>doc. uri doc = u) (rev (map snd (documents ws)))"

text \<open>Modelled from the spec: a URI names an existing file on the backing
  filesystem.\<close>

definition fileExists :: "Workspace \<Rightarrow> uri \<Rightarrow> bool" where
  "fileExists ws u = (files ws u \<noteq> None)"

text \<open>Modelled from the spec: the scheme of a URI, the text before its first
  colon.\<close>

definition scheme_of :: "uri \<Rightarrow> string" where
  "scheme_of u = takeWhile (\<lambda>c. c \<noteq> CHR '':'') u"

text \<open>
  Modelled from the spec: phase 1, step 2, the check of one operation (the
  applier is not in the sources). Which schemes are filesystem schemes is the
  parameter \<open>fs\<close>.
  \<^item> \<^verbatim>\<open>TextDocumentEdit\<close>: the target is an open Document (and then a non-null
    version equals the Document's version) or an existing file;
  \<^item> \<^verbatim>\<open>CreateFile\<close>: the scheme of the URI is a filesystem scheme;
  \<^item> \<^verbatim>\<open>DeleteFile\<close>, \<^verbatim>\<open>RenameFile\<close>: nothing is checked in this phase.
\<close>

fun validOperation :: "(string \<Rightarrow> bool) \<Rightarrow> Workspace \<Rightarrow> Operation \<Rightarrow> bool" where
  "validOperation fs ws (TextDocumentEdit u v edits) =
     (case getDocument ws u of
        Some doc \<Rightarrow> (case v of None \<Rightarrow> True | Some n \<Rightarrow> n = version (textModel doc))
      | None \<Rightarrow> fileExists ws u)"
| "validOperation fs ws (CreateFile u opts) = fs (scheme_of u)"
| "validOperation fs ws (DeleteFile u opts) = True"
| "validOperation fs ws (RenameFile old new opts) = True"

text \<open>
  Modelled from the spec: phase 1 (the applier is not in the sources).
  Step 1 rejects an edit with both shapes or with neither; step 2 checks every
  operation of \<^verbatim>\<open>documentChanges\<close>; step 3 checks every URI of \<^verbatim>\<open>changes\<close> as
  a \<^verbatim>\<open>TextDocumentEdit\<close> with a null version; step 4: one failure fails the
  batch.
\<close>

definition validate :: "(string \<Rightarrow> bool) \<Rightarrow> Workspace \<Rightarrow> WorkspaceEdit \<Rightarrow> bool" where
  "validate fs ws e =
     (case (changes e, documentChanges e) of
        (Some cs, Some ops) \<Rightarrow> False
      | (None, None) \<Rightarrow> False
      | (None, Some ops) \<Rightarrow> list_all (validOperation fs ws) ops
      | (Some cs, None) \<Rightarrow>
          list_all (\<lambda>(u, edits). validOperation fs ws (TextDocumentEdit u None edits)) cs)"

text \<open>
  Modelled from the spec: \<^verbatim>\<open>applyEdit\<close> (not in the sources) validates fully,
  then applies; on a validation failure nothing is applied and failure is
  reported. Phase 2 works through the host buffers, the filesystem and the
  prompt; it is the parameter \<open>apply_phase\<close>, which returns the outcome and the
  workspace it leaves.
\<close>

definition applyEdit ::
  "(string \<Rightarrow> bool) \<Rightarrow> (Workspace \<Rightarrow> WorkspaceEdit \<Rightarrow> bool \<times> Workspace) \<Rightarrow>
   Workspace \<Rightarrow> WorkspaceEdit \<Rightarrow> bool \<times> Workspace" where
  "applyEdit fs apply_phase ws e = (if validate fs ws e then apply_phase ws e else (False, ws))"

section \<open>Concrete inputs\<close>

text \<open>Four service objects: reference 1 carries the name of reference 0, and
  reference 3 lists the empty string among its language ids.\<close>

definition some_objects :: "ref \<Rightarrow> IServiceProvider" where
  "some_objects r =
     (if r = 0 then
        \<lparr>name = ''tsserver'', languageIds = [''typescript'', ''typescript.tsx''], state = Init\<rparr>
      else if r = 1 then
        \<lparr>name = ''tsserver'', languageIds = [''javascript''], state = Init\<rparr>
      else if r = 2 then
        \<lparr>name = ''lint'', languageIds = [''javascript'', ''typescript''], state = Running\<rparr>
      else
        \<lparr>name = ''plain'', languageIds = [[]], state = Init\<rparr>)"

text \<open>The manager after \<^verbatim>\<open>regist\<close> of the objects 0, 2 and 3, in this order.\<close>

definition some_manager :: ServiceManager where
  "some_manager = regist 3 (regist 2 (regist 0 (new_manager some_objects)))"

text \<open>The scenario of the spec after its first edit: the Document \<^verbatim>\<open>foo\<close> is open
  with the line \<^verbatim>\<open>barfoo\<close> at version 2; the filesystem holds one other file.\<close>

definition foo_workspace :: Workspace where
  "foo_workspace =
     \<lparr>documents =
        [(1, \<lparr>bufferId = 1, uri = ''file:///foo'',
              textModel = \<lparr>lines = [''barfoo''], version = 2\<rparr>,
              languageId = ''txt'', isAttached = True, isDirty = True\<rparr>)],
      files = [''file:///tmp/bar'' \<mapsto> ''bar'']\<rparr>"

definition insert_bar :: TextEdit where
  "insert_bar =
     \<lparr>range' = (\<lparr>line = 0, character = 0\<rparr>, \<lparr>line = 0, character = 0\<rparr>), newText = ''bar''\<rparr>"

text \<open>The batch of the scenario, still at version 1.\<close>

definition stale_edit :: WorkspaceEdit where
  "stale_edit =
     \<lparr>changes = None,
      documentChanges = Some [TextDocumentEdit ''file:///foo'' (Some 1) [insert_bar]]\<rparr>"

text \<open>\<^verbatim>\<open>changes\<close> for a file that is neither open nor on the filesystem.\<close>

definition missing_file_edit :: WorkspaceEdit where
  "missing_file_edit =
     \<lparr>changes = Some [(''file:///tmp/abcedf'', [insert_bar])], documentChanges = None\<rparr>"

text \<open>\<^verbatim>\<open>CreateFile\<close> on a terminal URI, after a create that would pass.\<close>

definition term_create_edit :: WorkspaceEdit where
  "term_create_edit =
     \<lparr>changes = None,
      documentChanges = Some
        [CreateFile ''file:///tmp/new'' \<lparr>overwrite = None, ignoreIfExists = None\<rparr>,
         CreateFile ''term://.'' \<lparr>overwrite = Some True, ignoreIfExists = None\<rparr>]\<rparr>"

text \<open>The one filesystem scheme of these inputs.\<close>

definition file_scheme :: "string \<Rightarrow> bool" where
  "file_scheme s = (s = ''file'')"

text \<open>A second phase that would report success and empty the workspace, were
  it reached.\<close>

definition wiping_phase :: "Workspace \<Rightarrow> WorkspaceEdit \<Rightarrow> bool \<times> Workspace" where
  "wiping_phase ws e = (True, ws\<lparr>documents := [], files := Map.empty\<rparr>)"

section \<open>Facts about the service manager\<close>

lemma fst_checkProvider: "fst (checkProvider lang w m) = (lang \<noteq> [] \<and> lang \<in> languageIds m)"
  by (simp add: checkProvider_def)

lemma service_init_fields:
  "name (service_init s) = name s"
  "IServiceProvider.languageIds (service_init s) = IServiceProvider.languageIds s"
  "state (service_init s) = Starting"
  by (simp_all add: service_init_def)

lemma start_step_fields:
  "registed (start_step r m) = registed m"
  "languageIds (start_step r m) = languageIds m"
  "echoed (start_step r m) = echoed m"
  "readyListeners (start_step r m) = readyListeners m"
  by (simp_all add: start_step_def)

lemma start_loop_fields:
  "registed (start_loop rs m) = registed m \<and>
   languageIds (start_loop rs m) = languageIds m \<and>
   echoed (start_loop rs m) = echoed m \<and>
   readyListeners (start_loop rs m) = readyListeners m"
  by (induction rs arbitrary: m) (simp_all add: start_step_fields)

text \<open>The loop of \<^verbatim>\<open>start\<close> changes exactly the objects of its list that are
  \<open>Init\<close> or \<open>Stopped\<close> when it begins. A reference that occurs twice is
  initialised once: the second round finds it \<open>Starting\<close>.\<close>

lemma start_loop_objects:
  "objects (start_loop rs m) =
     (\<lambda>r. if r \<in> set rs \<and> (state (objects m r) = Init \<or> state (objects m r) = Stopped)
          then service_init (objects m r) else objects m r)"
proof (induction rs arbitrary: m)
  case Nil
  show ?case by simp
next
  case (Cons a rs)
  show ?case
    by (auto simp: Cons.IH start_step_def service_init_def fun_eq_iff)
qed

lemma start_loop_initCalls:
  "distinct rs \<Longrightarrow>
   initCalls (start_loop rs m) =
     initCalls m @ filter (\<lambda>r. state (objects m r) = Init \<or> state (objects m r) = Stopped) rs"
proof (induction rs arbitrary: m)
  case Nil
  show ?case by simp
next
  case (Cons a rs)
  have same: "filter (\<lambda>r. state (objects (start_step a m) r) = Init \<or>
                        state (objects (start_step a m) r) = Stopped) rs
     = filter (\<lambda>r. state (objects m r) = Init \<or> state (objects m r) = Stopped) rs"
    using Cons.prems by (intro filter_cong) (auto simp: start_step_def)
  from Cons.prems have "distinct rs" by simp
  then show ?case
    by (simp add: Cons.IH same) (simp add: start_step_def)
qed

lemma start_loop_keeps:
  "name (objects (start_loop rs m) r) = name (objects m r) \<and>
   IServiceProvider.languageIds (objects (start_loop rs m) r) =
     IServiceProvider.languageIds (objects m r)"
  by (simp add: start_loop_objects service_init_fields)

lemma start_keeps:
  "name (objects (start lang m) r) = name (objects m r) \<and>
   IServiceProvider.languageIds (objects (start lang m) r) =
     IServiceProvider.languageIds (objects m r) \<and>
   registed (start lang m) = registed m \<and>
   languageIds (start lang m) = languageIds m"
  by (simp add: start_def start_loop_keeps start_loop_fields split: option.splits)

subsection \<open>The two invariants hold in every state the methods reach\<close>

lemma synced_new: "languageIds_synced (new_manager objs)"
  by (simp add: languageIds_synced_def new_manager_def)

lemma synced_regist: "languageIds_synced m \<Longrightarrow> languageIds_synced (regist r m)"
  by (auto simp: languageIds_synced_def regist_def Let_def split: option.splits)

lemma synced_start: "languageIds_synced m \<Longrightarrow> languageIds_synced (start lang m)"
  by (simp add: languageIds_synced_def start_keeps)

lemma wf_new: "registed_wf (new_manager objs)"
  by (simp add: registed_wf_def new_manager_def)

lemma wf_regist: "registed_wf m \<Longrightarrow> registed_wf (regist r m)"
  by (auto simp: registed_wf_def regist_def Let_def map_of_eq_None_iff split: option.splits)

lemma wf_start: "registed_wf m \<Longrightarrow> registed_wf (start lang m)"
  by (simp add: registed_wf_def start_keeps list_all_iff split_def)

text \<open>No object is stored under two keys.\<close>

lemma wf_distinct_refs: "registed_wf m \<Longrightarrow> distinct (map snd (registed m))"
proof -
  assume wf: "registed_wf m"
  have "map fst (registed m) = map (\<lambda>r. name (objects m r)) (map snd (registed m))"
    using wf by (auto simp: registed_wf_def list_all_iff)
  with wf show ?thesis
    by (metis registed_wf_def distinct_map)
qed

subsection \<open>The concrete manager\<close>

lemma some_manager_eq:
  "some_manager =
     \<lparr>objects = some_objects,
      languageIds = {''typescript'', ''typescript.tsx'', ''javascript'', []},
      registed = [(''tsserver'', 0), (''lint'', 2), (''plain'', 3)],
      echoed = [], readyListeners = [0, 2, 3], initCalls = []\<rparr>"
  by (auto simp: some_manager_def regist_def new_manager_def some_objects_def Let_def)

lemma some_manager_synced: "languageIds_synced some_manager"
  unfolding some_manager_def by (intro synced_regist synced_new)

lemma some_manager_wf: "registed_wf some_manager"
  unfolding some_manager_def by (intro wf_regist wf_new)

subsection \<open>Registration\<close>

text \<open>
  Claim C8. For every state of the manager and every service whose name is
  already a key of \<open>registed\<close>, \<^verbatim>\<open>regist\<close> returns normally with the error
  message echoed and nothing else changed: the map, the set of language ids and
  the objects are as before. Every registration keeps the map keyed by the
  names of its services with no key twice, so no two registered services share
  a name.
\<close>

theorem regist_existing_name:
  "(name (objects m service) \<in> fst ` set (registed m) \<longrightarrow>
      regist service m =
        m\<lparr>echoed := echoed m @
             [EchoErr (''Service '' @ name (objects m service) @ '' already exists'')]\<rparr>) \<and>
   (registed_wf m \<longrightarrow> registed_wf (regist service m))"
proof (intro conjI impI)
  assume "name (objects m service) \<in> fst ` set (registed m)"
  then obtain r where "map_of (registed m) (name (objects m service)) = Some r"
    by (metis map_of_eq_None_iff not_Some_eq)
  then show "regist service m =
      m\<lparr>echoed := echoed m @
           [EchoErr (''Service '' @ name (objects m service) @ '' already exists'')]\<rparr>"
    by (simp add: regist_def)
next
  assume "registed_wf m"
  then show "registed_wf (regist service m)" by (rule wf_regist)
qed

theorem regist_existing_name_witness:
  "name (objects some_manager 1) \<in> fst ` set (registed some_manager) \<and>
   regist 1 some_manager =
     some_manager\<lparr>echoed := [EchoErr ''Service tsserver already exists'']\<rparr> \<and>
   registed (regist 1 some_manager) = [(''tsserver'', 0), (''lint'', 2), (''plain'', 3)] \<and>
   registed_wf some_manager \<and>
   registed_wf (regist 1 some_manager)"
proof -
  have h1: "name (objects some_manager 1) \<in> fst ` set (registed some_manager)"
    by (simp add: some_manager_eq some_objects_def)
  have h2: "registed_wf some_manager"
    by (rule some_manager_wf)
  have r: "regist 1 some_manager =
      some_manager\<lparr>echoed := echoed some_manager @
        [EchoErr (''Service '' @ name (objects some_manager 1) @ '' already exists'')]\<rparr>"
    and w: "registed_wf (regist 1 some_manager)"
    using regist_existing_name [of some_manager 1] h1 h2 by blast+
  have "name (objects some_manager 1) = ''tsserver''" and "echoed some_manager = []"
    by (simp_all add: some_manager_eq some_objects_def)
  with r have e: "regist 1 some_manager =
      some_manager\<lparr>echoed := [EchoErr ''Service tsserver already exists'']\<rparr>"
    by simp
  have "registed (regist 1 some_manager) = [(''tsserver'', 0), (''lint'', 2), (''plain'', 3)]"
    unfolding e by (simp add: some_manager_eq)
  with h1 h2 w e show ?thesis by blast
qed

subsection \<open>Starting the services of a language\<close>

text \<open>
  Claim C9, as the spec states it, fails at the empty language id:
  \<^verbatim>\<open>checkProvider\<close> returns false for it before any lookup. In the concrete
  manager the service 3 is registered, lists the empty string among its
  language ids and is \<open>Init\<close>; \<^verbatim>\<open>start('')\<close> invokes no \<^verbatim>\<open>init\<close> and leaves it
  \<open>Init\<close>.
\<close>

theorem start_empty_languageId_counterexample:
  "languageIds_synced some_manager \<and> registed_wf some_manager \<and>
   3 \<in> snd ` set (registed some_manager) \<and>
   [] \<in> set (IServiceProvider.languageIds (objects some_manager 3)) \<and>
   state (objects some_manager 3) = Init \<and>
   initCalls (start [] some_manager) = [] \<and>
   state (objects (start [] some_manager) 3) = Init"
  using some_manager_synced some_manager_wf
  by (simp add: some_manager_eq some_objects_def start_def checkProvider_def)

text \<open>The guard of \<^verbatim>\<open>checkProvider\<close>: for the empty language id \<^verbatim>\<open>start\<close> returns
  at once, whatever the manager holds.\<close>

lemma start_empty_noop: "start [] m = m"
  by (simp add: start_def checkProvider_def)

text \<open>What \<^verbatim>\<open>start\<close> does for a language id that is not empty.\<close>

lemma start_nonempty_effect:
  assumes "languageIds_synced m" and "distinct (map snd (registed m))" and "lang \<noteq> []"
  shows "objects (start lang m) =
       (\<lambda>service.
          if service \<in> snd ` set (registed m) \<and>
             lang \<in> set (IServiceProvider.languageIds (objects m service)) \<and>
             (state (objects m service) = Init \<or> state (objects m service) = Stopped)
          then service_init (objects m service) else objects m service) \<and>
     (\<forall>service.
        service \<in> snd ` set (registed m) \<and>
        lang \<in> set (IServiceProvider.languageIds (objects m service)) \<and>
        (state (objects m service) = Init \<or> state (objects m service) = Stopped) \<longrightarrow>
        state (objects (start lang m) service) = Starting) \<and>
     initCalls (start lang m) =
       initCalls m @
       filter (\<lambda>service.
           lang \<in> set (IServiceProvider.languageIds (objects m service)) \<and>
           (state (objects m service) = Init \<or> state (objects m service) = Stopped))
         (map snd (registed m)) \<and>
     registed (start lang m) = registed m \<and>
     languageIds (start lang m) = languageIds m \<and>
     echoed (start lang m) = echoed m"
proof (cases "lang \<in> languageIds m")
  case False
  with assms show ?thesis
    by (auto simp: start_def fst_checkProvider languageIds_synced_def fun_eq_iff
        filter_empty_conv)
next
  case True
  let ?rs = "filter (\<lambda>service. lang \<in> set (IServiceProvider.languageIds (objects m service)))
               (map snd (registed m))"
  have st: "start lang m = start_loop ?rs m"
    using True assms(3) by (simp add: start_def getServices_def fst_checkProvider)
  have d: "distinct ?rs"
    using assms(2) by simp
  show ?thesis
    unfolding st
    by (auto simp: start_loop_objects start_loop_initCalls [OF d] start_loop_fields
        service_init_fields fun_eq_iff intro: filter_cong)
qed

text \<open>
  Claim C9, amended. For every manager whose set of language ids holds the ids
  of its registered services and in which no object is registered twice, and
  for every language id that is not empty, \<^verbatim>\<open>start\<close> invokes \<^verbatim>\<open>init\<close> on
  exactly the registered services that list the id and are \<open>Init\<close> or
  \<open>Stopped\<close>, once each and in the order of registration; each of them is
  \<open>Starting\<close> afterwards, every other object is as before, and the map, the
  set and the echoed messages are unchanged. For the empty language id
  \<^verbatim>\<open>start\<close> does nothing, in every manager: it returns the manager as it was.
\<close>

theorem start_inits_startable_services:
  "(languageIds_synced m \<and> distinct (map snd (registed m)) \<and> lang \<noteq> [] \<longrightarrow>
     objects (start lang m) =
       (\<lambda>service.
          if service \<in> snd ` set (registed m) \<and>
             lang \<in> set (IServiceProvider.languageIds (objects m service)) \<and>
             (state (objects m service) = Init \<or> state (objects m service) = Stopped)
          then service_init (objects m service) else objects m service) \<and>
     (\<forall>service.
        service \<in> snd ` set (registed m) \<and>
        lang \<in> set (IServiceProvider.languageIds (objects m service)) \<and>
        (state (objects m service) = Init \<or> state (objects m service) = Stopped) \<longrightarrow>
        state (objects (start lang m) service) = Starting) \<and>
     initCalls (start lang m) =
       initCalls m @
       filter (\<lambda>service.
           lang \<in> set (IServiceProvider.languageIds (objects m service)) \<and>
           (state (objects m service) = Init \<or> state (objects m service) = Stopped))
         (map snd (registed m)) \<and>
     registed (start lang m) = registed m \<and>
     languageIds (start lang m) = languageIds m \<and>
     echoed (start lang m) = echoed m) \<and>
   start [] m = m"
  (is "(?pre \<longrightarrow> ?effect) \<and> ?noop")
proof (rule conjI [OF impI])
  assume ?pre
  then have "languageIds_synced m" and "distinct (map snd (registed m))" and "lang \<noteq> []"
    by simp_all
  then show ?effect
    by (rule start_nonempty_effect)
next
  show ?noop
    by (rule start_empty_noop)
qed

theorem start_inits_startable_services_witness:
  "languageIds_synced some_manager \<and> distinct (map snd (registed some_manager)) \<and>
   state (objects (start ''typescript'' some_manager) 0) = Starting \<and>
   state (objects (start ''typescript'' some_manager) 2) = Running \<and>
   state (objects (start ''typescript'' some_manager) 3) = Init \<and>
   initCalls (start ''typescript'' some_manager) = [0] \<and>
   start [] some_manager = some_manager"
proof -
  have h: "languageIds_synced some_manager"
    by (rule some_manager_synced)
  have d: "distinct (map snd (registed some_manager))"
    by (simp add: some_manager_eq)
  have n: "''typescript'' \<noteq> []"
    by simp
  note t = start_inits_startable_services [of some_manager "''typescript''"]
  from t have e: "start [] some_manager = some_manager"
    by (rule conjunct2)
  from t h d n have
    "objects (start ''typescript'' some_manager) =
       (\<lambda>service.
          if service \<in> snd ` set (registed some_manager) \<and>
             ''typescript'' \<in> set (IServiceProvider.languageIds (objects some_manager service)) \<and>
             (state (objects some_manager service) = Init \<or>
              state (objects some_manager service) = Stopped)
          then service_init (objects some_manager service) else objects some_manager service)"
    and "initCalls (start ''typescript'' some_manager) =
       initCalls some_manager @
       filter (\<lambda>service.
           ''typescript'' \<in> set (IServiceProvider.languageIds (objects some_manager service)) \<and>
           (state (objects some_manager service) = Init \<or>
            state (objects some_manager service) = Stopped))
         (map snd (registed some_manager))"
    by blast+
  then have
    "state (objects (start ''typescript'' some_manager) 0) = Starting \<and>
     state (objects (start ''typescript'' some_manager) 2) = Running \<and>
     state (objects (start ''typescript'' some_manager) 3) = Init \<and>
     initCalls (start ''typescript'' some_manager) = [0]"
    by (simp add: some_manager_eq some_objects_def service_init_def)
  with h d e show ?thesis by blast
qed

subsection \<open>Looking up the services of a language\<close>

text \<open>
  Claim C10. For every manager whose set of language ids holds the ids of its
  registered services: when the language id is empty, or no registered service
  lists it, \<^verbatim>\<open>getServices\<close> returns \<^verbatim>\<open>undefined\<close> (\<open>None\<close>), not an empty
  list; otherwise it returns the registered services that list the id, in the
  order of registration.
\<close>

theorem getServices_result:
  assumes "languageIds_synced m"
  shows "getServices lang m =
     (if lang = [] \<or>
         (\<forall>service \<in> snd ` set (registed m).
            lang \<notin> set (IServiceProvider.languageIds (objects m service)))
      then None
      else Some (filter
        (\<lambda>service. lang \<in> set (IServiceProvider.languageIds (objects m service)))
        (map snd (registed m))))"
  using assms by (auto simp: getServices_def fst_checkProvider languageIds_synced_def)

theorem getServices_result_witness:
  "languageIds_synced some_manager \<and>
   getServices [] some_manager = None \<and>
   getServices ''ruby'' some_manager = None \<and>
   getServices ''typescript'' some_manager = Some [0, 2]"
proof -
  have h: "languageIds_synced some_manager"
    by (rule some_manager_synced)
  show ?thesis
    using h getServices_result [OF h, of "[]"] getServices_result [OF h, of "''ruby''"]
      getServices_result [OF h, of "''typescript''"]
    by (simp add: some_manager_eq some_objects_def)
qed

section \<open>Facts about the validation phase of the applier\<close>

lemma validate_both_shapes:
  "changes e \<noteq> None \<Longrightarrow> documentChanges e \<noteq> None \<Longrightarrow> \<not> validate fs ws e"
  by (auto simp: validate_def)

lemma validate_no_shape:
  "changes e = None \<Longrightarrow> documentChanges e = None \<Longrightarrow> \<not> validate fs ws e"
  by (simp add: validate_def)

lemma validate_documentChanges:
  "documentChanges e = Some ops \<Longrightarrow> op \<in> set ops \<Longrightarrow> \<not> validOperation fs ws op \<Longrightarrow>
   \<not> validate fs ws e"
  by (auto simp: validate_def list_all_iff split: option.splits)

lemma validate_changes:
  "changes e = Some cs \<Longrightarrow> (u, edits) \<in> set cs \<Longrightarrow>
   \<not> validOperation fs ws (TextDocumentEdit u None edits) \<Longrightarrow> \<not> validate fs ws e"
  by (auto simp: validate_def list_all_iff split: option.splits)

text \<open>A batch that validates reaches the second phase: the same Document at
  its current version 2 is accepted.\<close>

lemma applyEdit_valid: "validate fs ws e \<Longrightarrow> applyEdit fs apply_phase ws e = apply_phase ws e"
  by (simp add: applyEdit_def)

lemma current_version_validates:
  "validate file_scheme foo_workspace
     \<lparr>changes = None,
      documentChanges = Some [TextDocumentEdit ''file:///foo'' (Some 2) [insert_bar]]\<rparr>"
  by (simp add: validate_def foo_workspace_def getDocument_def)

text \<open>
  Claim C1. For every open Document and every edit whose \<^verbatim>\<open>documentChanges\<close>
  hold a \<^verbatim>\<open>TextDocumentEdit\<close> for it with a non-null version that is not the
  Document's version, \<^verbatim>\<open>applyEdit\<close> reports failure and leaves the workspace as
  it was: the Document, its lines and its version are unchanged.
\<close>

theorem applyEdit_version_mismatch:
  assumes "documentChanges e = Some ops"
    and "TextDocumentEdit u (Some n) edits \<in> set ops"
    and "getDocument ws u = Some doc"
    and "n \<noteq> version (textModel doc)"
  shows "fst (applyEdit fs apply_phase ws e) = False \<and>
         snd (applyEdit fs apply_phase ws e) = ws \<and>
         getDocument (snd (applyEdit fs apply_phase ws e)) u = Some doc"
proof -
  have "\<not> validOperation fs ws (TextDocumentEdit u (Some n) edits)"
    using assms(3,4) by simp
  then have "\<not> validate fs ws e"
    using assms(1,2) validate_documentChanges by blast
  then show ?thesis
    using assms(3) by (simp add: applyEdit_def)
qed

theorem applyEdit_version_mismatch_witness:
  "fst (applyEdit file_scheme wiping_phase foo_workspace stale_edit) = False \<and>
   snd (applyEdit file_scheme wiping_phase foo_workspace stale_edit) = foo_workspace \<and>
   map_option textModel
     (getDocument (snd (applyEdit file_scheme wiping_phase foo_workspace stale_edit))
        ''file:///foo'') =
     Some \<lparr>lines = [''barfoo''], version = 2\<rparr>"
proof -
  let ?doc = "\<lparr>bufferId = 1, uri = ''file:///foo'',
      textModel = \<lparr>lines = [''barfoo''], version = 2\<rparr>,
      languageId = ''txt'', isAttached = True, isDirty = True\<rparr>"
  have h1: "documentChanges stale_edit =
      Some [TextDocumentEdit ''file:///foo'' (Some 1) [insert_bar]]"
    by (simp add: stale_edit_def)
  have h2: "TextDocumentEdit ''file:///foo'' (Some 1) [insert_bar] \<in>
      set [TextDocumentEdit ''file:///foo'' (Some 1) [insert_bar]]"
    by simp
  have h3: "getDocument foo_workspace ''file:///foo'' = Some ?doc"
    by (simp add: foo_workspace_def getDocument_def)
  have h4: "1 \<noteq> version (textModel ?doc)"
    by simp
  show ?thesis
    using h3 applyEdit_version_mismatch [OF h1 h2 h3 h4, of file_scheme wiping_phase]
    by simp
qed

text \<open>
  Claim C2. For every edit: when it has both shapes or neither, or an
  operation of \<^verbatim>\<open>documentChanges\<close> has a target that is neither an open
  Document nor an existing file, a version that is not the open Document's, or
  a \<^verbatim>\<open>CreateFile\<close> URI whose scheme is not a filesystem scheme, or a URI of
  \<^verbatim>\<open>changes\<close> is neither open nor an existing file, then \<^verbatim>\<open>applyEdit\<close> reports
  failure for the whole batch and the workspace (every document, every file)
  is as before. In particular an edit of a URI that is not open and not an
  existing file fails and creates nothing.
\<close>

theorem applyEdit_validation_failure:
  assumes "(changes e \<noteq> None \<and> documentChanges e \<noteq> None) \<or>
     (changes e = None \<and> documentChanges e = None) \<or>
     (\<exists>ops u v edits. documentChanges e = Some ops \<and> TextDocumentEdit u v edits \<in> set ops \<and>
        getDocument ws u = None \<and> \<not> fileExists ws u) \<or>
     (\<exists>ops u n edits doc. documentChanges e = Some ops \<and>
        TextDocumentEdit u (Some n) edits \<in> set ops \<and>
        getDocument ws u = Some doc \<and> n \<noteq> version (textModel doc)) \<or>
     (\<exists>ops u opts. documentChanges e = Some ops \<and> CreateFile u opts \<in> set ops \<and>
        \<not> fs (scheme_of u)) \<or>
     (\<exists>cs u edits. changes e = Some cs \<and> (u, edits) \<in> set cs \<and>
        getDocument ws u = None \<and> \<not> fileExists ws u)"
  shows "applyEdit fs apply_phase ws e = (False, ws)"
proof -
  have "\<not> validate fs ws e"
    using assms
  proof (elim disjE exE conjE)
    fix ops u v edits
    assume "documentChanges e = Some ops" "TextDocumentEdit u v edits \<in> set ops"
      "getDocument ws u = None" "\<not> fileExists ws u"
    moreover from this have "\<not> validOperation fs ws (TextDocumentEdit u v edits)" by simp
    ultimately show ?thesis using validate_documentChanges by blast
  next
    fix ops u n edits doc
    assume "documentChanges e = Some ops" "TextDocumentEdit u (Some n) edits \<in> set ops"
      "getDocument ws u = Some doc" "n \<noteq> version (textModel doc)"
    moreover from this have "\<not> validOperation fs ws (TextDocumentEdit u (Some n) edits)"
      by simp
    ultimately show ?thesis using validate_documentChanges by blast
  next
    fix ops u opts
    assume "documentChanges e = Some ops" "CreateFile u opts \<in> set ops" "\<not> fs (scheme_of u)"
    moreover from this have "\<not> validOperation fs ws (CreateFile u opts)" by simp
    ultimately show ?thesis using validate_documentChanges by blast
  next
    fix cs u edits
    assume "changes e = Some cs" "(u, edits) \<in> set cs"
      "getDocument ws u = None" "\<not> fileExists ws u"
    moreover from this have "\<not> validOperation fs ws (TextDocumentEdit u None edits)" by simp
    ultimately show ?thesis using validate_changes by blast
  qed (simp_all add: validate_both_shapes validate_no_shape)
  then show ?thesis by (simp add: applyEdit_def)
qed

theorem applyEdit_validation_failure_witness:
  "getDocument foo_workspace ''file:///tmp/abcedf'' = None \<and>
   files foo_workspace ''file:///tmp/abcedf'' = None \<and>
   applyEdit file_scheme wiping_phase foo_workspace missing_file_edit =
     (False, foo_workspace) \<and>
   files (snd (applyEdit file_scheme wiping_phase foo_workspace missing_file_edit))
     ''file:///tmp/abcedf'' = None"
proof -
  have c: "changes missing_file_edit = Some [(''file:///tmp/abcedf'', [insert_bar])]"
    by (simp add: missing_file_edit_def)
  have g: "getDocument foo_workspace ''file:///tmp/abcedf'' = None"
    by (simp add: foo_workspace_def getDocument_def)
  have f: "files foo_workspace ''file:///tmp/abcedf'' = None"
    by (simp add: foo_workspace_def)
  then have x: "\<not> fileExists foo_workspace ''file:///tmp/abcedf''"
    by (simp add: fileExists_def)
  have "\<exists>cs u edits. changes missing_file_edit = Some cs \<and> (u, edits) \<in> set cs \<and>
      getDocument foo_workspace u = None \<and> \<not> fileExists foo_workspace u"
    using c g x by auto
  then have "applyEdit file_scheme wiping_phase foo_workspace missing_file_edit =
      (False, foo_workspace)"
    using applyEdit_validation_failure [of missing_file_edit foo_workspace file_scheme
        wiping_phase]
    by blast
  with g f show ?thesis by simp
qed

text \<open>
  Claim C4. For every edit whose \<^verbatim>\<open>documentChanges\<close> hold a \<^verbatim>\<open>CreateFile\<close> with a
  URI whose scheme is not a filesystem scheme, \<^verbatim>\<open>applyEdit\<close> reports failure
  and the filesystem is as before: no file is created, and no document
  changes.
\<close>

theorem applyEdit_createFile_scheme:
  assumes "documentChanges e = Some ops"
    and "CreateFile u opts \<in> set ops"
    and "\<not> fs (scheme_of u)"
  shows "fst (applyEdit fs apply_phase ws e) = False \<and>
         files (snd (applyEdit fs apply_phase ws e)) = files ws \<and>
         documents (snd (applyEdit fs apply_phase ws e)) = documents ws"
proof -
  have "\<not> validOperation fs ws (CreateFile u opts)"
    using assms(3) by simp
  then have "\<not> validate fs ws e"
    using assms(1,2) validate_documentChanges by blast
  then show ?thesis
    by (simp add: applyEdit_def)
qed

theorem applyEdit_createFile_scheme_witness:
  "scheme_of ''term://.'' = ''term'' \<and>
   fst (applyEdit file_scheme wiping_phase foo_workspace term_create_edit) = False \<and>
   files (snd (applyEdit file_scheme wiping_phase foo_workspace term_create_edit)) =
     files foo_workspace \<and>
   files (snd (applyEdit file_scheme wiping_phase foo_workspace term_create_edit))
     ''file:///tmp/new'' = None"
proof -
  let ?o1 = "\<lparr>overwrite = None, ignoreIfExists = None\<rparr>"
  let ?o2 = "\<lparr>overwrite = Some True, ignoreIfExists = None\<rparr>"
  have s: "scheme_of ''term://.'' = ''term''"
    by (simp add: scheme_of_def)
  have h1: "documentChanges term_create_edit =
      Some [CreateFile ''file:///tmp/new'' ?o1, CreateFile ''term://.'' ?o2]"
    by (simp add: term_create_edit_def)
  have h2: "CreateFile ''term://.'' ?o2 \<in>
      set [CreateFile ''file:///tmp/new'' ?o1, CreateFile ''term://.'' ?o2]"
    by simp
  have h3: "\<not> file_scheme (scheme_of ''term://.'')"
    by (simp add: s file_scheme_def)
  have "files foo_workspace ''file:///tmp/new'' = None"
    by (simp add: foo_workspace_def)
  then show ?thesis
    using s
      applyEdit_createFile_scheme
        [where fs = file_scheme and apply_phase = wiping_phase and ws = foo_workspace,
         OF h1 h2 h3]
    by simp
qed

end
